theory Spec2Isabelle
  imports Main "HOL-Library.Option_ord"
begin

section \<open>Values and strings\<close>

text \<open>
  The query server (api2.js) reads an SQLite file through \<open>runQuery\<close> and post-processes
  the rows in JavaScript. A column value is NULL, an integer or a text; it reaches
  JavaScript as \<open>null\<close>, a number or a string. REAL and BLOB values are not modelled
  (fetch2.js writes integers and texts only). Strings are lists of one-byte characters;
  the model is exact on ASCII content, which is what timestamps consist of.
  Column affinities and collations are those of a table declared without them: a value
  is compared as it is stored.
\<close>

datatype sqlval = SNull | SInt int | SText string

datatype error = URIError | TypeError | SQLITE_ERROR

type_synonym 'a result = "error + 'a"

definition is_digit :: "char \<Rightarrow> bool" where
  "is_digit c = (c \<in> set ''0123456789'')"

text \<open>ASCII case folding, as SQLite's LIKE does it: only A-Z are folded.\<close>

definition ascii_lower :: "char \<Rightarrow> char" where
  "ascii_lower c =
     (case map_of (zip ''ABCDEFGHIJKLMNOPQRSTUVWXYZ'' ''abcdefghijklmnopqrstuvwxyz'') c of
        None \<Rightarrow> c
      | Some l \<Rightarrow> l)"

text \<open>
  A regular expression of the source made of \<open>\d\<close> and literal characters between
  \<open>^\<close> and \<open>$\<close>, written as a shape: \<open>d\<close> stands for \<open>\d\<close>, any other character for
  itself. \<open>/^\d{4}-\d{2}-\d{2}$/\<close> is the shape \<open>dddd-dd-dd\<close>.
\<close>

fun shape :: "string \<Rightarrow> string \<Rightarrow> bool" where
  "shape [] [] = True"
| "shape (p # ps) (c # cs) = ((if p = CHR ''d'' then is_digit c else c = p) \<and> shape ps cs)"
| "shape _ _ = False"

subsection \<open>decodeURIComponent\<close>

text \<open>
  ECMAScript's Decode with an empty reserved set. A \<open>%\<close> must be followed by two
  hexadecimal digits; an octet below 0x80 is the character itself, a larger one must
  start a well-formed UTF-8 sequence whose further octets are escaped too. Anything else
  throws URIError. The decoded bytes are kept in UTF-8.
\<close>

definition hexval :: "char \<Rightarrow> nat option" where
  "hexval c =
     (if is_digit c then Some (of_char c - 48)
      else if c \<in> set ''abcdef'' then Some (of_char c - 87)
      else if c \<in> set ''ABCDEF'' then Some (of_char c - 55)
      else None)"

datatype token = Lit char | Oct nat

fun pct_tokens :: "string \<Rightarrow> token list result" where
  "pct_tokens [] = Inr []"
| "pct_tokens (c # cs) =
     (if c \<noteq> CHR ''%'' then
        (case pct_tokens cs of Inl e \<Rightarrow> Inl e | Inr ts \<Rightarrow> Inr (Lit c # ts))
      else
        (case cs of
           h1 # h2 # rest \<Rightarrow>
             (case (hexval h1, hexval h2) of
                (Some a, Some b) \<Rightarrow>
                  (case pct_tokens rest of Inl e \<Rightarrow> Inl e | Inr ts \<Rightarrow> Inr (Oct (16 * a + b) # ts))
              | _ \<Rightarrow> Inl URIError)
         | _ \<Rightarrow> Inl URIError))"

definition in_range :: "nat \<Rightarrow> nat \<Rightarrow> nat \<Rightarrow> bool" where
  "in_range lo hi b = (lo \<le> b \<and> b \<le> hi)"

text \<open>The well-formed UTF-8 byte sequences (Unicode, table 3-7), over escaped octets.\<close>

fun utf8_tokens :: "token list \<Rightarrow> string result" where
  "utf8_tokens [] = Inr []"
| "utf8_tokens (Lit c # ts) =
     (case utf8_tokens ts of Inl e \<Rightarrow> Inl e | Inr s \<Rightarrow> Inr (c # s))"
| "utf8_tokens (Oct b # ts) =
     (if b < 128 then
        (case utf8_tokens ts of Inl e \<Rightarrow> Inl e | Inr s \<Rightarrow> Inr (char_of b # s))
      else if in_range 194 223 b then
        (case ts of
           Oct b1 # r \<Rightarrow>
             (if in_range 128 191 b1 then
                (case utf8_tokens r of Inl e \<Rightarrow> Inl e
                 | Inr s \<Rightarrow> Inr (char_of b # char_of b1 # s))
              else Inl URIError)
         | _ \<Rightarrow> Inl URIError)
      else if in_range 224 239 b then
        (case ts of
           Oct b1 # Oct b2 # r \<Rightarrow>
             (if in_range (if b = 224 then 160 else 128) (if b = 237 then 159 else 191) b1
                 \<and> in_range 128 191 b2 then
                (case utf8_tokens r of Inl e \<Rightarrow> Inl e
                 | Inr s \<Rightarrow> Inr (char_of b # char_of b1 # char_of b2 # s))
              else Inl URIError)
         | _ \<Rightarrow> Inl URIError)
      else if in_range 240 244 b then
        (case ts of
           Oct b1 # Oct b2 # Oct b3 # r \<Rightarrow>
             (if in_range (if b = 240 then 144 else 128) (if b = 244 then 143 else 191) b1
                 \<and> in_range 128 191 b2 \<and> in_range 128 191 b3 then
                (case utf8_tokens r of Inl e \<Rightarrow> Inl e
                 | Inr s \<Rightarrow> Inr (char_of b # char_of b1 # char_of b2 # char_of b3 # s))
              else Inl URIError)
         | _ \<Rightarrow> Inl URIError)
      else Inl URIError)"

definition decodeURIComponent :: "string \<Rightarrow> string result" where
  "decodeURIComponent s =
     (case pct_tokens s of Inl e \<Rightarrow> Inl e | Inr ts \<Rightarrow> utf8_tokens ts)"

section \<open>The SQL the queries use\<close>

subsection \<open>Text of a value, LIKE, comparison, ORDER BY\<close>

function dec_digits :: "nat \<Rightarrow> string" where
  "dec_digits n =
     (if n < 10 then [''0123456789'' ! n]
      else dec_digits (n div 10) @ [''0123456789'' ! (n mod 10)])"
  by pat_completeness auto
termination
  by (relation "measure id") auto

declare dec_digits.simps [simp del]

definition int_text :: "int \<Rightarrow> string" where
  "int_text i = (if i < 0 then CHR ''-'' # dec_digits (nat (- i)) else dec_digits (nat i))"

text \<open>The text an operand of LIKE or TRIM is converted to; NULL stays NULL.\<close>

fun sql_text :: "sqlval \<Rightarrow> string option" where
  "sql_text SNull = None"
| "sql_text (SInt i) = Some (int_text i)"
| "sql_text (SText s) = Some s"

text \<open>
  \<open>like p s\<close>: the text \<open>s\<close> matches the pattern \<open>p\<close>. \<open>%\<close> matches any run of
  characters, \<open>_\<close> one character, any other character itself up to ASCII case.
\<close>

fun like :: "string \<Rightarrow> string \<Rightarrow> bool" where
  "like [] [] = True"
| "like [] (c # cs) = False"
| "like (p # ps) [] = (p = CHR ''%'' \<and> like ps [])"
| "like (p # ps) (c # cs) =
     (if p = CHR ''%'' then like ps (c # cs) \<or> like (p # ps) cs
      else (p = CHR ''_'' \<or> ascii_lower p = ascii_lower c) \<and> like ps cs)"

text \<open>\<open>v LIKE ?\<close> with the pattern bound to \<open>?\<close>; NULL LIKE anything is not true.\<close>

definition sql_like :: "string \<Rightarrow> sqlval \<Rightarrow> bool" where
  "sql_like pat v = (case sql_text v of None \<Rightarrow> False | Some s \<Rightarrow> like pat s)"

text \<open>\<open>a = b\<close> is true: neither is NULL and they are the same value of the same class.\<close>

definition sql_eq :: "sqlval \<Rightarrow> sqlval \<Rightarrow> bool" where
  "sql_eq a b = (a \<noteq> SNull \<and> b \<noteq> SNull \<and> a = b)"

text \<open>
  The order of ORDER BY, MAX and GROUP BY: NULL first, then integers by value, then
  texts byte by byte (memcmp, the shorter first).
\<close>

fun bytes_less :: "string \<Rightarrow> string \<Rightarrow> bool" where
  "bytes_less [] [] = False"
| "bytes_less [] (d # ds) = True"
| "bytes_less (c # cs) [] = False"
| "bytes_less (c # cs) (d # ds) =
     ((of_char c :: nat) < of_char d \<or> (c = d \<and> bytes_less cs ds))"

fun sql_less :: "sqlval \<Rightarrow> sqlval \<Rightarrow> bool" where
  "sql_less SNull SNull = False"
| "sql_less SNull _ = True"
| "sql_less (SInt a) SNull = False"
| "sql_less (SInt a) (SInt b) = (a < b)"
| "sql_less (SInt a) (SText t) = True"
| "sql_less (SText s) (SText t) = bytes_less s t"
| "sql_less (SText s) _ = False"

text \<open>
  ORDER BY as a stable insertion sort under a strict order \<open>lt\<close>. SQL does not fix the
  order of rows that compare equal; here they stay in the order the scan produced them.
  LIMIT n is \<open>take n\<close>.
\<close>

fun insert_by :: "('a \<Rightarrow> 'a \<Rightarrow> bool) \<Rightarrow> 'a \<Rightarrow> 'a list \<Rightarrow> 'a list" where
  "insert_by lt x [] = [x]"
| "insert_by lt x (y # ys) = (if lt y x then y # insert_by lt x ys else x # y # ys)"

definition order_by :: "('a \<Rightarrow> 'a \<Rightarrow> bool) \<Rightarrow> 'a list \<Rightarrow> 'a list" where
  "order_by lt xs = foldr (insert_by lt) xs []"

subsection \<open>The database file\<close>

text \<open>
  A row maps column names to values; a table has its declared columns and its rows in
  scan order; the database lists its tables by name (sqlite\_master). A statement that
  names a missing table or column fails, and \<open>runQuery\<close> rejects. Names are looked up
  as they are spelled: the tables and columns of the store are taken to be written as
  the code writes them (SQLite itself ignores the case of a name in a statement).
\<close>

type_synonym row = "(string \<times> sqlval) list"

record table =
  columns :: "string list"
  rows :: "row list"

type_synonym database = "(string \<times> table) list"

definition cell :: "row \<Rightarrow> string \<Rightarrow> sqlval" where
  "cell r c = (case map_of r c of None \<Rightarrow> SNull | Some v \<Rightarrow> v)"

definition from_table :: "database \<Rightarrow> string \<Rightarrow> string list \<Rightarrow> row list result" where
  "from_table db t cols =
     (case map_of db t of
        None \<Rightarrow> Inl SQLITE_ERROR
      | Some T \<Rightarrow> if list_all (\<lambda>c. c \<in> set (columns T)) cols then Inr (rows T)
                  else Inl SQLITE_ERROR)"

text \<open>
  What the code calls and the repository does not contain: SQLite's
  \<open>strftime('%s', x)\<close> (seconds since 1970 of a time value, NULL when \<open>x\<close> is not
  one) and \<open>DATE(x)\<close>, and JavaScript's \<open>new Date(s).getTime()\<close> for a string (NaN
  when \<open>s\<close> does not parse). They are parameters of the model; \<open>None\<close> is NULL or NaN.
\<close>

record builtins =
  strftime_s :: "sqlval \<Rightarrow> int option"
  sql_DATE :: "sqlval \<Rightarrow> string option"
  Date_parse :: "string \<Rightarrow> int option"

section \<open>The time resolver\<close>

text \<open>
  \<open>ABS(strftime('%s', folder_date) - strftime('%s', ?))\<close>: NULL when either side is.
\<close>

definition time_diff :: "builtins \<Rightarrow> sqlval \<Rightarrow> sqlval \<Rightarrow> sqlval" where
  "time_diff bi v target =
     (case (strftime_s bi v, strftime_s bi target) of
        (Some a, Some b) \<Rightarrow> SInt \<bar>a - b\<bar>
      | _ \<Rightarrow> SNull)"

text \<open>Lines 53-66: pad the decoded date to a full timestamp.\<close>

definition targetDateTime :: "string \<Rightarrow> string" where
  "targetDateTime decodedDate =
     (if shape ''dddd-dd-dd'' decodedDate then decodedDate @ '' 12:00:00''
      else if shape ''dddd-dd-dd dd'' decodedDate then decodedDate @ '':00:00''
      else if shape ''dddd-dd-dd dd:dd'' decodedDate then decodedDate @ '':00''
      else decodedDate)"

text \<open>Lines 74-82: the first folder\_date of XBLTotal that is LIKE the hour pattern.\<close>

definition exactHourQuery :: "database \<Rightarrow> string \<Rightarrow> sqlval list result" where
  "exactHourQuery db hourPattern =
     (case from_table db ''XBLTotal'' [''folder_date''] of
        Inl e \<Rightarrow> Inl e
      | Inr rs \<Rightarrow>
          Inr (take 1 (filter (sql_like hourPattern) (map (\<lambda>r. cell r ''folder_date'') rs))))"

text \<open>Lines 86-96: the folder\_date of XBLTotal with the least time\_diff.\<close>

definition closestQuery :: "builtins \<Rightarrow> database \<Rightarrow> string \<Rightarrow> sqlval list result" where
  "closestQuery bi db target =
     (case from_table db ''XBLTotal'' [''folder_date''] of
        Inl e \<Rightarrow> Inl e
      | Inr rs \<Rightarrow>
          Inr (take 1
            (order_by (\<lambda>a b. sql_less (time_diff bi a (SText target)) (time_diff bi b (SText target)))
               (filter (\<lambda>v. v \<noteq> SNull) (map (\<lambda>r. cell r ''folder_date'') rs)))))"

text \<open>
  Lines 99-106: \<open>foundDate.substring(0, 13)\<close>; a number has no \<open>substring\<close>, so the
  call throws TypeError.
\<close>

definition foundHour :: "sqlval list \<Rightarrow> string option result" where
  "foundHour rs =
     (case rs of
        [] \<Rightarrow> Inr None
      | foundDate # _ \<Rightarrow>
          (case foundDate of SText s \<Rightarrow> Inr (Some (take 13 s)) | _ \<Rightarrow> Inl TypeError))"

definition getClosestFolderDateHour :: "builtins \<Rightarrow> database \<Rightarrow> string \<Rightarrow> string option result" where
  "getClosestFolderDateHour bi db targetDate =
     (case decodeURIComponent targetDate of
        Inl e \<Rightarrow> Inl e
      | Inr decodedDate \<Rightarrow>
          (let targetDateHour = take 13 (targetDateTime decodedDate);
               hourPattern = targetDateHour @ ''%''
           in case exactHourQuery db hourPattern of
                Inl e \<Rightarrow> Inl e
              | Inr rs \<Rightarrow>
                  (if rs = [] then
                     (case closestQuery bi db (targetDateTime decodedDate) of
                        Inl e \<Rightarrow> Inl e
                      | Inr rs' \<Rightarrow> foundHour rs')
                   else foundHour rs)))"

section \<open>Helpers of the endpoints\<close>

text \<open>What JavaScript takes for true in \<open>if (v)\<close>, \<open>!v\<close> and \<open>v || d\<close>.\<close>

fun truthy :: "sqlval \<Rightarrow> bool" where
  "truthy SNull = False"
| "truthy (SInt i) = (i \<noteq> 0)"
| "truthy (SText s) = (s \<noteq> [])"

text \<open>A query parameter of a request: absent, or a string (the empty one is false).\<close>

definition given :: "string option \<Rightarrow> bool" where
  "given p = (case p of None \<Rightarrow> False | Some s \<Rightarrow> s \<noteq> [])"

text \<open>
  \<open>getLatestSyncId\<close>:
  \<open>SELECT sync_id FROM Sync ORDER BY sync_date DESC LIMIT 1\<close>, null when there is no row.
\<close>

definition getLatestSyncId :: "database \<Rightarrow> sqlval result" where
  "getLatestSyncId db =
     (case from_table db ''Sync'' [''sync_id'', ''sync_date''] of
        Inl e \<Rightarrow> Inl e
      | Inr rs \<Rightarrow>
          (case take 1 (order_by (\<lambda>a b. sql_less (cell b ''sync_date'') (cell a ''sync_date'')) rs) of
             [] \<Rightarrow> Inr SNull
           | r # _ \<Rightarrow> Inr (cell r ''sync_id'')))"

text \<open>
  \<open>getClosestDate(table, column, targetDate)\<close>; the callers pass no extra conditions.
\<close>

definition getClosestDate :: "builtins \<Rightarrow> database \<Rightarrow> string \<Rightarrow> string \<Rightarrow> string \<Rightarrow> sqlval result" where
  "getClosestDate bi db tbl column targetDate =
     (case from_table db tbl [column] of
        Inl e \<Rightarrow> Inl e
      | Inr rs \<Rightarrow>
          (case take 1
                  (order_by (\<lambda>a b. sql_less (time_diff bi (cell a column) (SText targetDate))
                                            (time_diff bi (cell b column) (SText targetDate)))
                     (filter (\<lambda>r. cell r column \<noteq> SNull) rs)) of
             [] \<Rightarrow> Inr SNull
           | r # _ \<Rightarrow> Inr (cell r column)))"

subsection \<open>Existence probes\<close>

text \<open>
  A probe answers and leaves a trace: the statements it handed to \<open>runQuery\<close>, each
  with its text and its bound parameters.
\<close>

type_synonym statement = "string \<times> sqlval list"

definition tableExists :: "database \<Rightarrow> string \<Rightarrow> bool \<times> statement list" where
  "tableExists db tableName =
     (map_of db tableName \<noteq> None,
      [(''SELECT name FROM sqlite_master WHERE type='table' AND name=?'', [SText tableName])])"

text \<open>
  The character class of \<open>/^[a-zA-Z0-9_]+$/\<close>. A name that passes is put into the text
  of the PRAGMA, which answers with the columns of that table, none if there is no such
  table. (The code probes its four table names; a name that is a reserved word of SQL,
  for which the PRAGMA would fail, is not among them.)
\<close>

definition word_char :: "char \<Rightarrow> bool" where
  "word_char c = (c \<in> set ''abcdefghijklmnopqrstuvwxyzABCDEFGHIJKLMNOPQRSTUVWXYZ0123456789_'')"

definition columnExists :: "database \<Rightarrow> string \<Rightarrow> string \<Rightarrow> bool \<times> statement list" where
  "columnExists db tableName columnName =
     (if \<not> (tableName \<noteq> [] \<and> list_all word_char tableName) then (False, [])
      else
        ((case map_of db tableName of
            None \<Rightarrow> False
          | Some T \<Rightarrow> columnName \<in> set (columns T)),
         [(''PRAGMA table_info('' @ tableName @ '')'', [])]))"

definition fieldMapping :: "(string \<times> string) list" where
  "fieldMapping =
     [(''id'', ''field1''), (''leaderboard_id'', ''field2''), (''rank'', ''field3''),
      (''name'', ''field4''), (''first_place_finishes'', ''field5''),
      (''second_place_finishes'', ''field6''), (''third_place_finishes'', ''field7''),
      (''races_completed'', ''field8''), (''kudos_rank'', ''field9''), (''kudos'', ''field10''),
      (''folder_date'', ''field11''), (''data_date'', ''field12''), (''sync_id'', ''field13'')]"

definition generic_table :: "string \<Rightarrow> bool" where
  "generic_table tableName =
     (tableName = ''XBLTotal1'' \<or> tableName = ''XBLTotal2'' \<or> tableName = ''XBLTotal3'')"

text \<open>
  \<open>getColumnName\<close>: the generic tables name their columns \<open>field1\<close> to \<open>field13\<close>;
  a logical name outside the mapping passes through.
\<close>

definition getColumnName :: "string \<Rightarrow> string \<Rightarrow> string" where
  "getColumnName tableName logicalColumnName =
     (if generic_table tableName then
        (case map_of fieldMapping logicalColumnName of
           Some f \<Rightarrow> f
         | None \<Rightarrow> logicalColumnName)
      else logicalColumnName)"

section \<open>GET /api2/xbltotal\<close>

record listing_query =
  q_name :: "string option"
  q_folder_date :: "string option"
  q_data_date :: "string option"
  q_sync_id :: "string option"
  q_all :: "string option"

definition xbltotal_columns :: "string list" where
  "xbltotal_columns =
     [''id'', ''leaderboard_id'', ''rank'', ''name'', ''first_place_finishes'',
      ''second_place_finishes'', ''third_place_finishes'', ''races_completed'', ''kudos_rank'',
      ''kudos'', ''folder_date'', ''data_date'', ''sync_id'']"

definition project :: "string list \<Rightarrow> row \<Rightarrow> row" where
  "project cols r = map (\<lambda>c. (c, cell r c)) cols"

text \<open>The conditions pushed at lines 116-126, as predicates on a row of XBLTotal.\<close>

definition request_conditions :: "listing_query \<Rightarrow> (row \<Rightarrow> bool) list" where
  "request_conditions q =
     (if given (q_name q)
      then [\<lambda>r. sql_like (''%'' @ the (q_name q) @ ''%'') (cell r ''name'')] else [])
     @ (if given (q_sync_id q)
        then [\<lambda>r. sql_eq (cell r ''sync_id'') (SText (the (q_sync_id q)))] else [])"

definition useLatestSync :: "listing_query \<Rightarrow> bool" where
  "useLatestSync q =
     (\<not> given (q_sync_id q) \<and> \<not> given (q_folder_date q) \<and> \<not> given (q_data_date q)
      \<and> q_all q \<noteq> Some ''true'')"

text \<open>Lines 168-181: keep the rows whose date is the closest stored one, if there is one.\<close>

definition filter_closest :: "builtins \<Rightarrow> database \<Rightarrow> string \<Rightarrow> string option \<Rightarrow> row list \<Rightarrow> row list result" where
  "filter_closest bi db column p rs =
     (if given p then
        (case getClosestDate bi db ''XBLTotal'' column (the p) of
           Inl e \<Rightarrow> Inl e
         | Inr closest \<Rightarrow>
             Inr (if truthy closest then filter (\<lambda>row. cell row column = closest) rs else rs))
      else Inr rs)"

text \<open>The handler: \<open>Inr rows\<close> is the JSON answer, \<open>Inl e\<close> the status 500.\<close>

definition xbltotal_listing :: "builtins \<Rightarrow> database \<Rightarrow> listing_query \<Rightarrow> row list result" where
  "xbltotal_listing bi db q =
     (case (if useLatestSync q then getLatestSyncId db else Inr SNull) of
        Inl e \<Rightarrow> Inl e
      | Inr latestSyncId \<Rightarrow>
          (let conditions = request_conditions q
                 @ (if useLatestSync q \<and> truthy latestSyncId
                    then [\<lambda>r. sql_eq (cell r ''sync_id'') latestSyncId] else [])
           in case from_table db ''XBLTotal'' xbltotal_columns of
                Inl e \<Rightarrow> Inl e
              | Inr rs \<Rightarrow>
                  (case filter_closest bi db ''folder_date'' (q_folder_date q)
                          (map (project xbltotal_columns)
                             (filter (\<lambda>r. list_all (\<lambda>c. c r) conditions) rs)) of
                     Inl e \<Rightarrow> Inl e
                   | Inr rs1 \<Rightarrow> filter_closest bi db ''data_date'' (q_data_date q) rs1)))"

section \<open>GET /api2/xbltotal/chart\<close>

record checks =
  exists :: bool
  hasName :: bool
  hasSyncId :: bool
  hasFolderDate :: bool
  hasKudos :: bool

definition tableNames :: "string list" where
  "tableNames = [''XBLTotal'', ''XBLTotal1'', ''XBLTotal2'', ''XBLTotal3'']"

text \<open>Lines 275-292: probe a table, and its columns under their physical names.\<close>

definition check_table :: "database \<Rightarrow> string \<Rightarrow> checks" where
  "check_table db tableName =
     (if fst (tableExists db tableName) then
        (if generic_table tableName then
           \<lparr>exists = True,
            hasName = fst (columnExists db tableName ''field4''),
            hasSyncId = fst (columnExists db tableName ''field13''),
            hasFolderDate = fst (columnExists db tableName ''field11''),
            hasKudos = fst (columnExists db tableName ''field10'')\<rparr>
         else
           \<lparr>exists = True,
            hasName = fst (columnExists db tableName ''name''),
            hasSyncId = fst (columnExists db tableName ''sync_id''),
            hasFolderDate = fst (columnExists db tableName ''folder_date''),
            hasKudos = fst (columnExists db tableName ''kudos'')\<rparr>)
      else
        \<lparr>exists = False, hasName = False, hasSyncId = False, hasFolderDate = False,
         hasKudos = False\<rparr>)"

definition tableChecks :: "database \<Rightarrow> (string \<times> checks) list" where
  "tableChecks db = map (\<lambda>tableName. (tableName, check_table db tableName)) tableNames"

text \<open>Lines 302-311 and 346-358: the tables each of the two unions is built from.\<close>

definition top10_tables :: "database \<Rightarrow> string list" where
  "top10_tables db =
     map fst (filter (\<lambda>(tableName, c). exists c \<and> hasName c \<and> hasSyncId c \<and> hasKudos c)
                (tableChecks db))"

definition data_tables :: "database \<Rightarrow> string list" where
  "data_tables db =
     map fst (filter (\<lambda>(tableName, c). exists c \<and> hasName c \<and> hasFolderDate c \<and> hasKudos c)
                (tableChecks db))"

text \<open>Running the parts of a UNION ALL in order; the first failure is the statement's.\<close>

fun union_all :: "'a list result list \<Rightarrow> 'a list result" where
  "union_all [] = Inr []"
| "union_all (p # ps) =
     (case p of
        Inl e \<Rightarrow> Inl e
      | Inr xs \<Rightarrow> (case union_all ps of Inl e \<Rightarrow> Inl e | Inr ys \<Rightarrow> Inr (xs @ ys)))"

text \<open>
  \<open>SELECT nameCol as name, kudosCol as kudos FROM t WHERE syncIdCol = ?\<close>, the parameter
  being \<open>latestSyncId || ''\<close>.
\<close>

definition top10Part :: "database \<Rightarrow> sqlval \<Rightarrow> string \<Rightarrow> (sqlval \<times> sqlval) list result" where
  "top10Part db param tableName =
     (let nameCol = getColumnName tableName ''name'';
          kudosCol = getColumnName tableName ''kudos'';
          syncIdCol = getColumnName tableName ''sync_id''
      in case from_table db tableName [nameCol, kudosCol, syncIdCol] of
           Inl e \<Rightarrow> Inl e
         | Inr rs \<Rightarrow>
             Inr (map (\<lambda>r. (cell r nameCol, cell r kudosCol))
                    (filter (\<lambda>r. sql_eq (cell r syncIdCol) param) rs)))"

text \<open>MAX over a group: the greatest value that is not NULL, NULL when there is none.\<close>

definition sql_max :: "sqlval list \<Rightarrow> sqlval" where
  "sql_max vs = foldl (\<lambda>m v. if sql_less m v then v else m) SNull vs"

text \<open>
  \<open>SELECT name, MAX(kudos) ... GROUP BY name ORDER BY max_kudos DESC LIMIT 10\<close>.
  SQL leaves the order of rows with equal \<open>max_kudos\<close> open. SQLite, the ORDER BY
  being descending, walks the groups in descending order of their names and sorts them
  stably, so that names of equal \<open>max_kudos\<close> come out in descending order.
\<close>

definition group_max :: "(sqlval \<times> sqlval) list \<Rightarrow> (sqlval \<times> sqlval) list" where
  "group_max prs =
     map (\<lambda>n. (n, sql_max (map snd (filter (\<lambda>p. fst p = n) prs))))
       (order_by (\<lambda>a b. sql_less b a) (remdups (map fst prs)))"

definition top10Query :: "(sqlval \<times> sqlval) list \<Rightarrow> (sqlval \<times> sqlval) list" where
  "top10Query prs = take 10 (order_by (\<lambda>a b. sql_less (snd b) (snd a)) (group_max prs))"

text \<open>
  Lines 298-331: \<open>None\<close> when no table qualifies (the handler answers \<open>{}\<close>), else the
  rows \<open>(name, max_kudos)\<close> of the top 10 query.
\<close>

definition top10Rows :: "database \<Rightarrow> (sqlval \<times> sqlval) list option result" where
  "top10Rows db =
     (case getLatestSyncId db of
        Inl e \<Rightarrow> Inl e
      | Inr latestSyncId \<Rightarrow>
          (if top10_tables db = [] then Inr None
           else
             (case union_all
                     (map (top10Part db (if truthy latestSyncId then latestSyncId else SText []))
                        (top10_tables db)) of
                Inl e \<Rightarrow> Inl e
              | Inr prs \<Rightarrow> Inr (Some (top10Query prs)))))"

text \<open>
  A part of the historical union (line 352): rows \<open>(folder_date, name, kudos)\<close> of a table
  whose name is one of the top 10.
\<close>

definition dataPart :: "database \<Rightarrow> sqlval list \<Rightarrow> string \<Rightarrow> (sqlval \<times> sqlval \<times> sqlval) list result" where
  "dataPart db top10Users tableName =
     (let nameCol = getColumnName tableName ''name'';
          kudosCol = getColumnName tableName ''kudos'';
          folderDateCol = getColumnName tableName ''folder_date''
      in case from_table db tableName [folderDateCol, nameCol, kudosCol] of
           Inl e \<Rightarrow> Inl e
         | Inr rs \<Rightarrow>
             Inr (map (\<lambda>r. (cell r folderDateCol, cell r nameCol, cell r kudosCol))
                    (filter (\<lambda>r. cell r folderDateCol \<noteq> SNull \<and> cell r nameCol \<noteq> SNull
                                 \<and> cell r nameCol \<noteq> SText []
                                 \<and> list_ex (sql_eq (cell r nameCol)) top10Users) rs)))"

text \<open>\<open>TRIM(COALESCE(name, ''))\<close>: the text of the value without its outer spaces.\<close>

definition sql_trim :: "string \<Rightarrow> string" where
  "sql_trim s = rev (dropWhile (\<lambda>c. c = CHR '' '') (rev (dropWhile (\<lambda>c. c = CHR '' '') s)))"

definition trim_name :: "sqlval \<Rightarrow> string" where
  "trim_name v = sql_trim (case sql_text v of None \<Rightarrow> [] | Some s \<Rightarrow> s)"

definition date_of :: "builtins \<Rightarrow> sqlval \<Rightarrow> sqlval" where
  "date_of bi v = (case sql_DATE bi v of None \<Rightarrow> SNull | Some d \<Rightarrow> SText d)"

text \<open>
  The subquery \<open>t2\<close> (lines 378-387): one row \<open>(name, date, max_folder_date)\<close> for each
  pair of a trimmed name and a day.
\<close>

definition daily_max :: "builtins \<Rightarrow> (sqlval \<times> sqlval \<times> sqlval) list \<Rightarrow> (string \<times> sqlval \<times> sqlval) list" where
  "daily_max bi u =
     (let qualifying = filter (\<lambda>(fd, name, kudos). name \<noteq> SNull \<and> trim_name name \<noteq> []) u
      in map (\<lambda>(n, d). (n, d,
                sql_max (map fst (filter (\<lambda>(fd, name, kudos). trim_name name = n \<and> date_of bi fd = d)
                                    qualifying))))
           (remdups (map (\<lambda>(fd, name, kudos). (trim_name name, date_of bi fd)) qualifying)))"

text \<open>
  The join of lines 370-393: a row of the union is kept, as \<open>(date, name, kudos)\<close>, once
  for each row of \<open>t2\<close> with its name, its day and its folder\_date; then
  \<open>ORDER BY date ASC, name ASC\<close>.
\<close>

definition history_rows :: "builtins \<Rightarrow> (sqlval \<times> sqlval \<times> sqlval) list \<Rightarrow> (sqlval \<times> string \<times> sqlval) list" where
  "history_rows bi u =
     order_by (\<lambda>(d1, n1, k1) (d2, n2, k2). sql_less d1 d2 \<or> (d1 = d2 \<and> bytes_less n1 n2))
       (concat (map (\<lambda>(fd, name, kudos).
           concat (map (\<lambda>(n, d, max_folder_date).
               if name \<noteq> SNull \<and> trim_name name \<noteq> []
                  \<and> trim_name name = n \<and> sql_eq (date_of bi fd) d \<and> sql_eq fd max_folder_date
               then [(date_of bi fd, trim_name name, kudos)] else [])
             (daily_max bi u))) u))"

text \<open>
  Lines 404-421. \<open>String(row.name).trim()\<close> strips the white space of JavaScript (its
  ASCII part here). \<open>chartData\<close> is a plain object: a key that \<open>Object.prototype\<close>
  defines reads as present, and \<open>push\<close> on what it holds throws TypeError.
\<close>

definition js_space :: "char \<Rightarrow> bool" where
  "js_space c = ((of_char c :: nat) \<in> {9, 10, 11, 12, 13, 32})"

definition js_trim :: "string \<Rightarrow> string" where
  "js_trim s = rev (dropWhile js_space (rev (dropWhile js_space s)))"

definition prototype_keys :: "string list" where
  "prototype_keys =
     [''constructor'', ''__defineGetter__'', ''__defineSetter__'', ''hasOwnProperty'',
      ''__lookupGetter__'', ''__lookupSetter__'', ''isPrototypeOf'', ''propertyIsEnumerable'',
      ''toString'', ''valueOf'', ''__proto__'', ''toLocaleString'']"

type_synonym point = "sqlval \<times> sqlval"

type_synonym chart = "string \<rightharpoonup> point list"

definition add_point :: "chart result \<Rightarrow> (sqlval \<times> string \<times> sqlval) \<Rightarrow> chart result" where
  "add_point acc row =
     (case acc of
        Inl e \<Rightarrow> Inl e
      | Inr chartData \<Rightarrow>
          (case row of (date, name, kudos) \<Rightarrow>
             (let userName = js_trim name in
              if name = [] \<or> userName = [] then Inr chartData
              else if userName \<in> set prototype_keys then Inl TypeError
              else Inr (chartData(userName \<mapsto>
                     (case chartData userName of None \<Rightarrow> [] | Some ps \<Rightarrow> ps)
                     @ [(date, if truthy kudos then kudos else SInt 0)])))))"

definition chartData_of :: "(sqlval \<times> string \<times> sqlval) list \<Rightarrow> chart result" where
  "chartData_of rs = foldl add_point (Inr Map.empty) rs"

text \<open>The handler: \<open>Inr chartData\<close> is the JSON answer, \<open>Inl e\<close> the status 500.\<close>

definition xbltotal_chart :: "builtins \<Rightarrow> database \<Rightarrow> chart result" where
  "xbltotal_chart bi db =
     (case top10Rows db of
        Inl e \<Rightarrow> Inl e
      | Inr None \<Rightarrow> Inr Map.empty
      | Inr (Some top10) \<Rightarrow>
          (if top10 = [] then Inr Map.empty
           else if data_tables db = [] then Inr Map.empty
           else
             (case union_all (map (dataPart db (map fst top10)) (data_tables db)) of
                Inl e \<Rightarrow> Inl e
              | Inr u \<Rightarrow> chartData_of (history_rows bi u))))"

section \<open>GET /api2/xbltotal/:date\<close>

text \<open>
  The time value of \<open>new Date(v)\<close> for a value that is not false: a number is its own
  time value when within the range of Date, a string is parsed.
\<close>

fun Date_value :: "builtins \<Rightarrow> sqlval \<Rightarrow> int option" where
  "Date_value bi SNull = None"
| "Date_value bi (SInt n) = (if \<bar>n\<bar> \<le> 8640000000000000 then Some n else None)"
| "Date_value bi (SText s) = Date_parse bi s"

text \<open>
  Line 483: \<open>currentDate && (!existingDate || currentDate > existingDate)\<close>, where a
  date is null when its folder\_date is false; a comparison with NaN is false.
\<close>

definition replaces :: "builtins \<Rightarrow> row \<Rightarrow> row \<Rightarrow> bool" where
  "replaces bi row existing =
     (truthy (cell row ''folder_date'')
      \<and> (\<not> truthy (cell existing ''folder_date'')
         \<or> (case (Date_value bi (cell row ''folder_date''),
                  Date_value bi (cell existing ''folder_date'')) of
              (Some c, Some e) \<Rightarrow> c > e
            | _ \<Rightarrow> False)))"

text \<open>\<open>Map.prototype.set\<close>: a new key goes last, a known key keeps its place.\<close>

fun Map_set :: "'k \<Rightarrow> 'v \<Rightarrow> ('k \<times> 'v) list \<Rightarrow> ('k \<times> 'v) list" where
  "Map_set k v [] = [(k, v)]"
| "Map_set k v ((k', v') # m) = (if k' = k then (k, v) # m else (k', v') # Map_set k v m)"

definition dedupe_step :: "builtins \<Rightarrow> (sqlval \<times> row) list \<Rightarrow> row \<Rightarrow> (sqlval \<times> row) list" where
  "dedupe_step bi nameMap row =
     (let name = cell row ''name'' in
      if \<not> truthy name then nameMap
      else
        (case map_of nameMap name of
           None \<Rightarrow> Map_set name row nameMap
         | Some existing \<Rightarrow>
             if replaces bi row existing then Map_set name row nameMap else nameMap))"

definition deduplicatedRows :: "builtins \<Rightarrow> row list \<Rightarrow> row list" where
  "deduplicatedRows bi rs = map snd (foldl (dedupe_step bi) [] rs)"

datatype response = Json "row list" | Status404 | Status500 error

definition xbltotal_by_date :: "builtins \<Rightarrow> database \<Rightarrow> string \<Rightarrow> response" where
  "xbltotal_by_date bi db dateParam =
     (case getClosestFolderDateHour bi db dateParam of
        Inl e \<Rightarrow> Status500 e
      | Inr None \<Rightarrow> Status404
      | Inr (Some closestHour) \<Rightarrow>
          (if closestHour = [] then Status404
           else
             (case from_table db ''XBLTotal'' xbltotal_columns of
                Inl e \<Rightarrow> Status500 e
              | Inr rs \<Rightarrow>
                  (let found = deduplicatedRows bi
                         (map (project xbltotal_columns)
                            (filter (\<lambda>r. sql_like (closestHour @ ''%'') (cell r ''folder_date'')) rs))
                   in if found = [] then Status404 else Json found))))"

section \<open>An instance of the parameters\<close>

text \<open>
  For concrete runs: timestamps written \<open>YYYY-MM-DD HH:MM:SS\<close> with fields of a real
  calendar date and time of day, read as UTC; this is the form \<open>datetime('now')\<close> stores
  in fetch2.js. On them SQLite and JavaScript (on a server whose zone is UTC) answer as
  below; every other value is taken as no time value at all.
\<close>

definition dec_value :: "string \<Rightarrow> int" where
  "dec_value s = foldl (\<lambda>a c. 10 * a + (of_char c - 48)) 0 s"

definition leap_year :: "int \<Rightarrow> bool" where
  "leap_year y = (y mod 4 = 0 \<and> (y mod 100 \<noteq> 0 \<or> y mod 400 = 0))"

definition days_in_month :: "int \<Rightarrow> int \<Rightarrow> int" where
  "days_in_month y m =
     (if m = 2 then (if leap_year y then 29 else 28)
      else if m = 4 \<or> m = 6 \<or> m = 9 \<or> m = 11 then 30 else 31)"

text \<open>Days from 1970-01-01 to a date of the Gregorian calendar.\<close>

definition days_from_civil :: "int \<Rightarrow> int \<Rightarrow> int \<Rightarrow> int" where
  "days_from_civil y m d =
     (let y' = (if m \<le> 2 then y - 1 else y);
          era = y' div 400;
          yoe = y' - era * 400;
          doy = (153 * (if m > 2 then m - 3 else m + 9) + 2) div 5 + d - 1;
          doe = yoe * 365 + yoe div 4 - yoe div 100 + doy
      in era * 146097 + doe - 719468)"

definition utc_seconds :: "string \<Rightarrow> int option" where
  "utc_seconds s =
     (if shape ''dddd-dd-dd dd:dd:dd'' s then
        (let y = dec_value (take 4 s); m = dec_value (take 2 (drop 5 s));
             d = dec_value (take 2 (drop 8 s)); h = dec_value (take 2 (drop 11 s));
             mi = dec_value (take 2 (drop 14 s)); se = dec_value (take 2 (drop 17 s))
         in if 1 \<le> m \<and> m \<le> 12 \<and> 1 \<le> d \<and> d \<le> days_in_month y m
               \<and> h \<le> 23 \<and> mi \<le> 59 \<and> se \<le> 59
            then Some (days_from_civil y m d * 86400 + h * 3600 + mi * 60 + se)
            else None)
      else None)"

definition utc :: builtins where
  "utc =
     \<lparr>strftime_s = (\<lambda>v. case v of SText s \<Rightarrow> utc_seconds s | _ \<Rightarrow> None),
      sql_DATE = (\<lambda>v. case v of
                        SText s \<Rightarrow> (if utc_seconds s = None then None else Some (take 10 s))
                      | _ \<Rightarrow> None),
      Date_parse = (\<lambda>s. map_option (\<lambda>t. 1000 * t) (utc_seconds s))\<rparr>"

section \<open>Notions the properties are stated with\<close>



text \<open>
  The capture instant of a row: the time value of its folder\_date, none when the
  folder\_date is false for JavaScript (null, empty, zero). Instants are ordered with
  "none" below every time value.
\<close>

definition capture_instant :: "builtins \<Rightarrow> row \<Rightarrow> int option" where
  "capture_instant bi r =
     (if truthy (cell r ''folder_date'') then Date_value bi (cell r ''folder_date'') else None)"

text \<open>
  \<open>r\<close> is, among the rows of \<open>rs\<close> with its name, the first one of the greatest
  capture instant.
\<close>

definition keeps_latest :: "builtins \<Rightarrow> row list \<Rightarrow> row \<Rightarrow> bool" where
  "keeps_latest bi rs r =
     (\<exists>i<length rs. rs ! i = r
        \<and> (\<forall>j<length rs. cell (rs ! j) ''name'' = cell r ''name''
              \<longrightarrow> capture_instant bi (rs ! j) \<le> capture_instant bi r
                  \<and> (j < i \<longrightarrow> capture_instant bi (rs ! j) < capture_instant bi r)))"

text \<open>What holds of \<open>nameMap\<close> after the rows \<open>xs\<close>.\<close>

definition dedupe_inv :: "builtins \<Rightarrow> row list \<Rightarrow> (sqlval \<times> row) list \<Rightarrow> bool" where
  "dedupe_inv bi xs m =
     (distinct (map fst m)
      \<and> set (map fst m) = {n \<in> (\<lambda>r. cell r ''name'') ` set xs. truthy n}
      \<and> (\<forall>(n, r)\<in>set m. cell r ''name'' = n \<and> keeps_latest bi xs r))"


section \<open>Sample stores\<close>

definition make_table :: "string list \<Rightarrow> sqlval list list \<Rightarrow> table" where
  "make_table cols vss = \<lparr>columns = cols, rows = map (zip cols) vss\<rparr>"

text \<open>
  The thirteen values of a captured row, in the order of the columns of XBLTotal and of
  \<open>field1\<close> to \<open>field13\<close>; fetch2.js stamps folder\_date and data\_date alike.
\<close>

definition capture :: "int \<Rightarrow> string \<Rightarrow> int \<Rightarrow> sqlval \<Rightarrow> string \<Rightarrow> sqlval list" where
  "capture i name kudos folder_date sync_id =
     [SInt i, SInt 1, SInt 1, SText name, SInt 0, SInt 0, SInt 0, SInt 0, SInt 1, SInt kudos,
      folder_date, folder_date, SText sync_id]"

definition generic_columns :: "string list" where
  "generic_columns = map snd fieldMapping"


definition split_store :: database where
  "split_store =
     [(''XBLTotal'', make_table xbltotal_columns
        [capture 1 ''A'' 100 (SText ''2024-11-20 09:00:00'') ''s1'']),
      (''XBLTotal1'', make_table generic_columns
        [capture 1 ''A'' 110 (SText ''2024-11-26 17:55:21'') ''s2''])]"



definition quoted_name_store :: database where
  "quoted_name_store = [(''a b'', make_table [''name''] [])]"

definition no_sync_store :: database where
  "no_sync_store =
     [(''Sync'', make_table [''sync_id'', ''sync_date''] []),
      (''XBLTotal'', make_table xbltotal_columns
        [capture 1 ''A'' 100 (SText ''2024-11-26 17:00:00'') ''s1'',
         capture 2 ''A'' 120 (SText ''2024-11-27 09:00:00'') ''s2''])]"

definition same_hour_rows :: "row list" where
  "same_hour_rows =
     [[(''name'', SText ''A''), (''folder_date'', SText ''2024-11-26 17:10:00'')],
      [(''name'', SNull), (''folder_date'', SText ''2024-11-26 17:15:00'')],
      [(''name'', SText ''A''), (''folder_date'', SText ''2024-11-26 17:20:00'')],
      [(''name'', SText ''B''), (''folder_date'', SText ''2024-11-26 17:20:00'')],
      [(''name'', SText ''''), (''folder_date'', SText ''2024-11-26 17:25:00'')],
      [(''name'', SText ''B''), (''folder_date'', SText ''2024-11-26 17:20:00''), (''kudos'', SInt 1)]]"


definition two_table_store :: database where
  "two_table_store =
     [(''Sync'', make_table [''sync_id'', ''sync_date'']
        [[SText ''s0'', SText ''2024-11-26T17:00:00.000Z''],
         [SText ''s1'', SText ''2024-11-27T09:00:00.000Z'']]),
      (''XBLTotal'', make_table xbltotal_columns
        [capture 1 ''A'' 900 (SText ''2024-11-26 17:00:00'') ''s0'',
         capture 2 ''A'' 50 (SText ''2024-11-27 09:00:00'') ''s1'',
         capture 3 ''B'' 60 (SText ''2024-11-27 09:00:00'') ''s1'']),
      (''XBLTotal1'', make_table generic_columns
        [capture 1 ''A'' 70 (SText ''2024-11-27 09:00:05'') ''s1''])]"

definition tied_store :: database where
  "tied_store =
     [(''Sync'', make_table [''sync_id'', ''sync_date'']
        [[SText ''s0'', SText ''2024-11-27T08:00:00.000Z''],
         [SText ''s1'', SText ''2024-11-27T09:00:00.000Z'']]),
      (''XBLTotal'', make_table xbltotal_columns
        [capture 1 ''A'' 100 (SText ''2024-11-27 08:00:00'') ''s0'',
         capture 2 ''A'' 120 (SText ''2024-11-27 09:00:00'') ''s1'']),
      (''XBLTotal1'', make_table generic_columns
        [capture 1 ''A'' 120 (SText ''2024-11-27 09:00:00'') ''s1''])]"


section \<open>Properties: strings and orders\<close>















lemma bytes_less_asym: "bytes_less a b \<Longrightarrow> \<not> bytes_less b a"
  by (induction a b rule: bytes_less.induct) auto

lemma bytes_less_negtrans: "\<not> bytes_less a b \<Longrightarrow> \<not> bytes_less b c \<Longrightarrow> \<not> bytes_less a c"
proof (induction a b arbitrary: c rule: bytes_less.induct)
  case (4 x xs y ys)
  then show ?case by (cases c) (auto simp: not_less)
qed (auto elim: bytes_less.elims)

lemma sql_less_asym: "sql_less a b \<Longrightarrow> \<not> sql_less b a"
  by (induction a b rule: sql_less.induct) (auto dest: bytes_less_asym)

lemma sql_less_negtrans: "\<not> sql_less a b \<Longrightarrow> \<not> sql_less b c \<Longrightarrow> \<not> sql_less a c"
  by (cases a; cases b; cases c) (auto dest: bytes_less_negtrans)

lemma order_by_Cons: "order_by lt (x # xs) = insert_by lt x (order_by lt xs)"
  by (simp add: order_by_def)

lemma order_by_Nil: "order_by lt [] = []"
  by (simp add: order_by_def)

lemma set_insert_by: "set (insert_by lt x xs) = insert x (set xs)"
  by (induction xs) auto

lemma set_order_by: "set (order_by lt xs) = set xs"
  by (induction xs) (auto simp: order_by_Cons order_by_Nil set_insert_by)




section \<open>Properties: the time resolver\<close>
















lemmas run = make_table_def capture_def xbltotal_columns_def generic_columns_def fieldMapping_def
  from_table_def cell_def is_digit_def


lemma resolver_only_XBLTotal:
  "map_of db ''XBLTotal'' = map_of db' ''XBLTotal''
   \<Longrightarrow> getClosestFolderDateHour bi db s = getClosestFolderDateHour bi db' s"
proof -
  assume eq: "map_of db ''XBLTotal'' = map_of db' ''XBLTotal''"
  have a: "exactHourQuery db = exactHourQuery db'" and b: "closestQuery bi db = closestQuery bi db'"
    by (simp_all add: fun_eq_iff exactHourQuery_def closestQuery_def from_table_def eq)
  show ?thesis unfolding getClosestFolderDateHour_def a b ..
qed

text \<open>
  C1. The claim is that the resolver draws its candidates from the folder\_dates of every
  existing table. The code reads XBLTotal alone. Here XBLTotal1 holds a capture in the
  target hour 2024-11-26 17 and XBLTotal one of six days before: the resolver returns
  the latter's hour. With XBLTotal1 the only table it fails.
\<close>

theorem pooled_tables_ignored:
  "map (\<lambda>r. cell r (getColumnName ''XBLTotal1'' ''folder_date'')) (rows (the (map_of split_store ''XBLTotal1'')))
     = [SText ''2024-11-26 17:55:21'']
   \<and> getClosestFolderDateHour utc split_store ''2024-11-26 17'' = Inr (Some ''2024-11-20 09'')
   \<and> getClosestFolderDateHour utc (filter (\<lambda>(n, t). n = ''XBLTotal1'') split_store) ''2024-11-26 17''
       = Inl SQLITE_ERROR"
  by (simp add: split_store_def run getColumnName_def generic_table_def fieldMapping_def
      getClosestFolderDateHour_def decodeURIComponent_def hexval_def targetDateTime_def
      exactHourQuery_def closestQuery_def sql_like_def ascii_lower_def foundHour_def
      order_by_def time_diff_def utc_def utc_seconds_def)










section \<open>Properties: the existence probes\<close>

text \<open>
  C9, as the code has it. For a table name with a character outside \<open>[a-zA-Z0-9_]\<close>,
  \<open>columnExists\<close> answers false and hands no statement to the database. \<open>tableExists\<close>
  has no such check: it hands over one statement of fixed text with the name bound as a
  parameter, and answers whether a table of exactly that name exists.
\<close>

theorem probes_on_bad_names:
  assumes "c \<in> set tableName" and "\<not> word_char c"
  shows "columnExists db tableName columnName = (False, [])
       \<and> tableExists db tableName
           = (map_of db tableName \<noteq> None,
              [(''SELECT name FROM sqlite_master WHERE type='table' AND name=?'', [SText tableName])])"
  using assms by (auto simp: columnExists_def tableExists_def list_all_iff)

theorem probes_on_bad_names_witness:
  "CHR '';'' \<in> set ''Sync; DROP TABLE Sync'' \<and> \<not> word_char (CHR '';'')
   \<and> columnExists no_sync_store ''Sync; DROP TABLE Sync'' ''sync_id'' = (False, [])
   \<and> tableExists no_sync_store ''Sync; DROP TABLE Sync''
       = (False, [(''SELECT name FROM sqlite_master WHERE type='table' AND name=?'',
                   [SText ''Sync; DROP TABLE Sync''])])"
proof -
  have a: "CHR '';'' \<in> set ''Sync; DROP TABLE Sync''" and b: "\<not> word_char (CHR '';'')"
    by (simp_all add: word_char_def)
  show ?thesis
    using a b probes_on_bad_names[OF a b, of no_sync_store "''sync_id''"]
    by (simp add: no_sync_store_def)
qed

text \<open>
  C9 as claimed fails for \<open>tableExists\<close>: SQLite allows a table named \<open>a b\<close>, and on a
  database that has it the probe answers true.
\<close>

theorem tableExists_counterexample:
  "CHR '' '' \<in> set ''a b'' \<and> \<not> word_char (CHR '' '')
   \<and> fst (tableExists quoted_name_store ''a b'') = True"
  by (simp add: word_char_def tableExists_def quoted_name_store_def)

section \<open>Properties: the listing\<close>

text \<open>
  C10. When Sync has no rows, \<open>getLatestSyncId\<close> is null and a request without name,
  folder\_date, data\_date, sync\_id and all gets every row of XBLTotal, of whatever sync.
\<close>

theorem listing_without_sync:
  assumes sync: "from_table db ''Sync'' [''sync_id'', ''sync_date''] = Inr []"
    and xbl: "from_table db ''XBLTotal'' xbltotal_columns = Inr rs"
    and q: "\<not> given (q_name q)" "\<not> given (q_folder_date q)" "\<not> given (q_data_date q)"
      "\<not> given (q_sync_id q)" "q_all q \<noteq> Some ''true''"
  shows "getLatestSyncId db = Inr SNull
       \<and> xbltotal_listing bi db q = Inr (map (project xbltotal_columns) rs)"
proof -
  have l: "getLatestSyncId db = Inr SNull" by (simp add: getLatestSyncId_def sync order_by_Nil)
  have u: "useLatestSync q" using q by (simp add: useLatestSync_def)
  have c: "request_conditions q = []" using q by (simp add: request_conditions_def)
  show ?thesis using q by (simp add: l xbltotal_listing_def u c xbl filter_closest_def)
qed

theorem listing_without_sync_witness:
  "getLatestSyncId no_sync_store = Inr SNull
   \<and> map (\<lambda>r. cell r ''sync_id'') (the (map_option rows (map_of no_sync_store ''XBLTotal'')))
       = [SText ''s1'', SText ''s2'']
   \<and> xbltotal_listing utc no_sync_store
        \<lparr>q_name = None, q_folder_date = None, q_data_date = None, q_sync_id = None, q_all = None\<rparr>
       = Inr (map (project xbltotal_columns) (the (map_option rows (map_of no_sync_store ''XBLTotal''))))"
proof -
  let ?q = "\<lparr>q_name = None, q_folder_date = None, q_data_date = None, q_sync_id = None, q_all = None\<rparr>"
  let ?rs = "the (map_option rows (map_of no_sync_store ''XBLTotal''))"
  have sync: "from_table no_sync_store ''Sync'' [''sync_id'', ''sync_date''] = Inr []"
    by (simp add: no_sync_store_def run)
  have xbl: "from_table no_sync_store ''XBLTotal'' xbltotal_columns = Inr ?rs"
    by (simp add: no_sync_store_def from_table_def make_table_def list_all_iff)
  have q: "\<not> given (q_name ?q)" "\<not> given (q_folder_date ?q)" "\<not> given (q_data_date ?q)"
      "\<not> given (q_sync_id ?q)" "q_all ?q \<noteq> Some ''true''"
    by (simp_all add: given_def)
  have ids: "map (\<lambda>r. cell r ''sync_id'') ?rs = [SText ''s1'', SText ''s2'']"
    by (simp add: no_sync_store_def run)
  show ?thesis using listing_without_sync[OF sync xbl q, of utc] ids by simp
qed

section \<open>Properties: deduplication by name\<close>

lemma map_fst_Map_set:
  "map fst (Map_set k v m) = (if k \<in> fst ` set m then map fst m else map fst m @ [k])"
proof (induction m)
  case Nil
  then show ?case by simp
next
  case (Cons p m)
  obtain a b where p: "p = (a, b)" by (cases p)
  show ?case
  proof (cases "a = k")
    case True
    then show ?thesis by (simp add: p)
  next
    case False
    then show ?thesis using Cons by (simp add: p)
  qed
qed

lemma set_Map_set:
  "distinct (map fst m) \<Longrightarrow> set (Map_set k v m) = insert (k, v) {p \<in> set m. fst p \<noteq> k}"
proof (induction m)
  case Nil
  then show ?case by simp
next
  case (Cons p m)
  obtain a b where p: "p = (a, b)" by (cases p)
  show ?case
  proof (cases "a = k")
    case True
    then have "k \<notin> fst ` set m" using Cons.prems by (simp add: p)
    then have "\<forall>q\<in>set m. fst q \<noteq> k" by blast
    then have "{q \<in> set ((a, b) # m). fst q \<noteq> k} = set m" using True by auto
    then show ?thesis using True by (simp add: p)
  next
    case False
    then have "{q \<in> set ((a, b) # m). fst q \<noteq> k} = insert (a, b) {q \<in> set m. fst q \<noteq> k}"
      by auto
    moreover have "set (Map_set k v m) = insert (k, v) {p \<in> set m. fst p \<noteq> k}"
      using Cons by simp
    ultimately show ?thesis using False by (simp add: p insert_commute)
  qed
qed

lemma replaces_iff:
  assumes "truthy (cell x ''folder_date'') \<longrightarrow> Date_value bi (cell x ''folder_date'') \<noteq> None"
    and "truthy (cell e ''folder_date'') \<longrightarrow> Date_value bi (cell e ''folder_date'') \<noteq> None"
  shows "replaces bi x e = (capture_instant bi e < capture_instant bi x)"
proof (cases "truthy (cell x ''folder_date'')")
  case False
  then show ?thesis by (simp add: replaces_def capture_instant_def)
next
  case True
  then obtain c where c: "Date_value bi (cell x ''folder_date'') = Some c" using assms(1) by auto
  show ?thesis
  proof (cases "truthy (cell e ''folder_date'')")
    case False
    then show ?thesis using True c by (simp add: replaces_def capture_instant_def)
  next
    case t: True
    then obtain d where d: "Date_value bi (cell e ''folder_date'') = Some d" using assms(2) by auto
    show ?thesis using True t c d by (simp add: replaces_def capture_instant_def)
  qed
qed

lemma keeps_latest_snoc_other:
  assumes "keeps_latest bi xs r" and "cell x ''name'' \<noteq> cell r ''name''"
  shows "keeps_latest bi (xs @ [x]) r"
proof -
  from assms(1) obtain i where i: "i < length xs" "xs ! i = r"
    "\<forall>j<length xs. cell (xs ! j) ''name'' = cell r ''name''
        \<longrightarrow> capture_instant bi (xs ! j) \<le> capture_instant bi r
            \<and> (j < i \<longrightarrow> capture_instant bi (xs ! j) < capture_instant bi r)"
    unfolding keeps_latest_def by blast
  show ?thesis unfolding keeps_latest_def
  proof (intro exI[of _ i] conjI allI impI)
    show "i < length (xs @ [x])" using i by simp
    show "(xs @ [x]) ! i = r" using i by (simp add: nth_append)
  next
    fix j assume j: "j < length (xs @ [x])" "cell ((xs @ [x]) ! j) ''name'' = cell r ''name''"
    then have "j < length xs" using assms(2) by (cases "j = length xs") (auto simp: nth_append)
    then show "capture_instant bi ((xs @ [x]) ! j) \<le> capture_instant bi r"
      using i j by (simp add: nth_append)
  next
    fix j assume j: "j < length (xs @ [x])" "cell ((xs @ [x]) ! j) ''name'' = cell r ''name''" "j < i"
    then show "capture_instant bi ((xs @ [x]) ! j) < capture_instant bi r"
      using i by (simp add: nth_append)
  qed
qed

lemma keeps_latest_snoc_kept:
  assumes "keeps_latest bi xs r" and "\<not> capture_instant bi r < capture_instant bi x"
  shows "keeps_latest bi (xs @ [x]) r"
proof -
  from assms(1) obtain i where i: "i < length xs" "xs ! i = r"
    "\<forall>j<length xs. cell (xs ! j) ''name'' = cell r ''name''
        \<longrightarrow> capture_instant bi (xs ! j) \<le> capture_instant bi r
            \<and> (j < i \<longrightarrow> capture_instant bi (xs ! j) < capture_instant bi r)"
    unfolding keeps_latest_def by blast
  show ?thesis unfolding keeps_latest_def
  proof (intro exI[of _ i] conjI allI impI)
    show "i < length (xs @ [x])" using i by simp
    show "(xs @ [x]) ! i = r" using i by (simp add: nth_append)
  next
    fix j assume j: "j < length (xs @ [x])" "cell ((xs @ [x]) ! j) ''name'' = cell r ''name''"
    show "capture_instant bi ((xs @ [x]) ! j) \<le> capture_instant bi r"
    proof (cases "j = length xs")
      case True
      then show ?thesis using assms(2) by (simp add: not_less)
    next
      case False
      then show ?thesis using i j by (simp add: nth_append)
    qed
  next
    fix j assume j: "j < length (xs @ [x])" "cell ((xs @ [x]) ! j) ''name'' = cell r ''name''" "j < i"
    then show "capture_instant bi ((xs @ [x]) ! j) < capture_instant bi r"
      using i by (simp add: nth_append)
  qed
qed

lemma keeps_latest_snoc_new:
  assumes "\<forall>j<length xs. cell (xs ! j) ''name'' = cell x ''name''
             \<longrightarrow> capture_instant bi (xs ! j) < capture_instant bi x"
  shows "keeps_latest bi (xs @ [x]) x"
  unfolding keeps_latest_def
proof (intro exI[of _ "length xs"] conjI allI impI)
  show "length xs < length (xs @ [x])" by simp
  show "(xs @ [x]) ! length xs = x" by simp
next
  fix j assume j: "j < length (xs @ [x])" "cell ((xs @ [x]) ! j) ''name'' = cell x ''name''"
  show "capture_instant bi ((xs @ [x]) ! j) \<le> capture_instant bi x"
  proof (cases "j = length xs")
    case True
    then show ?thesis by simp
  next
    case False
    then have "j < length xs" using j by simp
    then show ?thesis using assms j by (auto simp: nth_append less_imp_le)
  qed
next
  fix j assume j: "j < length (xs @ [x])" "cell ((xs @ [x]) ! j) ''name'' = cell x ''name''" "j < length xs"
  then show "capture_instant bi ((xs @ [x]) ! j) < capture_instant bi x"
    using assms by (auto simp: nth_append)
qed


lemma inv_names:
  assumes "dedupe_inv bi xs m" and "(n, r) \<in> set m"
  shows "truthy n" and "cell r ''name'' = n" and "keeps_latest bi xs r" and "r \<in> set xs"
proof -
  have "n \<in> set (map fst m)" using assms(2) by force
  then show "truthy n" using assms(1) by (simp add: dedupe_inv_def)
  show a: "cell r ''name'' = n" and b: "keeps_latest bi xs r" using assms by (auto simp: dedupe_inv_def)
  from b show "r \<in> set xs" by (auto simp: keeps_latest_def)
qed

lemma inv_absent:
  assumes "dedupe_inv bi xs m" and "truthy n" and "n \<notin> fst ` set m" and "j < length xs"
  shows "cell (xs ! j) ''name'' \<noteq> n"
proof
  assume "cell (xs ! j) ''name'' = n"
  then have "n \<in> {n \<in> (\<lambda>r. cell r ''name'') ` set xs. truthy n}" using assms(2,4) by auto
  then have "n \<in> set (map fst m)" using assms(1) by (simp add: dedupe_inv_def)
  then show False using assms(3) by simp
qed

lemma inv_step:
  assumes I: "dedupe_inv bi xs m"
    and valid: "\<forall>r\<in>set (xs @ [x]). truthy (cell r ''folder_date'')
                  \<longrightarrow> Date_value bi (cell r ''folder_date'') \<noteq> None"
  shows "dedupe_inv bi (xs @ [x]) (dedupe_step bi m x)"
proof -
  let ?n = "cell x ''name''"
  have dist: "distinct (map fst m)" and names: "set (map fst m) = {n \<in> (\<lambda>r. cell r ''name'') ` set xs. truthy n}"
    using I by (simp_all add: dedupe_inv_def)
  have other: "keeps_latest bi (xs @ [x]) r" if "(n, r) \<in> set m" "n \<noteq> ?n" for n r
    using keeps_latest_snoc_other[of bi xs r x] inv_names[OF I that(1)] that(2) by simp
  show ?thesis
  proof (cases "truthy ?n")
    case False
    have "{n \<in> (\<lambda>r. cell r ''name'') ` set (xs @ [x]). truthy n} = {n \<in> (\<lambda>r. cell r ''name'') ` set xs. truthy n}"
      using False by auto
    moreover have "\<forall>(n, r)\<in>set m. cell r ''name'' = n \<and> keeps_latest bi (xs @ [x]) r"
    proof (clarify, intro conjI)
      fix n r assume nr: "(n, r) \<in> set m"
      show "cell r ''name'' = n" using inv_names[OF I nr] by simp
      have "n \<noteq> ?n" using inv_names(1)[OF I nr] False by auto
      then show "keeps_latest bi (xs @ [x]) r" using other nr by blast
    qed
    ultimately show ?thesis using False dist names by (simp add: dedupe_inv_def dedupe_step_def)
  next
    case True
    have nset: "{n \<in> (\<lambda>r. cell r ''name'') ` set (xs @ [x]). truthy n}
        = insert ?n {n \<in> (\<lambda>r. cell r ''name'') ` set xs. truthy n}"
      using True by auto
    show ?thesis
    proof (cases "map_of m ?n")
      case None
      then have absent: "?n \<notin> fst ` set m" by (simp add: map_of_eq_None_iff)
      have step: "dedupe_step bi m x = Map_set ?n x m" using True None by (simp add: dedupe_step_def)
      have keys: "map fst (Map_set ?n x m) = map fst m @ [?n]" using absent by (simp add: map_fst_Map_set)
      have "{p \<in> set m. fst p \<noteq> ?n} = set m" using absent by force
      then have sets: "set (Map_set ?n x m) = insert (?n, x) (set m)" using set_Map_set[OF dist, of ?n x] by simp
      have new: "keeps_latest bi (xs @ [x]) x"
        by (rule keeps_latest_snoc_new) (use inv_absent[OF I True absent] in blast)
      have "\<forall>(n, r)\<in>set (Map_set ?n x m). cell r ''name'' = n \<and> keeps_latest bi (xs @ [x]) r"
      proof (clarify, intro conjI)
        fix n r assume "(n, r) \<in> set (Map_set ?n x m)"
        then consider "n = ?n" "r = x" | "(n, r) \<in> set m" using sets by auto
        then show "cell r ''name'' = n" using inv_names(2)[OF I] by cases auto
      next
        fix n r assume "(n, r) \<in> set (Map_set ?n x m)"
        then consider "n = ?n" "r = x" | "(n, r) \<in> set m" using sets by auto
        then show "keeps_latest bi (xs @ [x]) r"
        proof cases
          case 1
          then show ?thesis using new by simp
        next
          case 2
          then have "n \<noteq> ?n" using absent by force
          then show ?thesis using other 2 by blast
        qed
      qed
      moreover have "distinct (map fst (Map_set ?n x m))" using keys dist absent by simp
      moreover have "set (map fst (Map_set ?n x m)) = {n \<in> (\<lambda>r. cell r ''name'') ` set (xs @ [x]). truthy n}"
        using keys names nset by simp
      ultimately show ?thesis unfolding step dedupe_inv_def by blast
    next
      case (Some e)
      then have e: "(?n, e) \<in> set m" by (rule map_of_SomeD)
      then have present: "?n \<in> fst ` set m" by force
      have ename: "cell e ''name'' = ?n" and ekeeps: "keeps_latest bi xs e" and ein: "e \<in> set xs"
        using inv_names[OF I e] by simp_all
      have rep: "replaces bi x e = (capture_instant bi e < capture_instant bi x)"
        by (rule replaces_iff) (use valid ein in auto)
      have nset': "{n \<in> (\<lambda>r. cell r ''name'') ` set (xs @ [x]). truthy n} = set (map fst m)"
        using nset names present by auto
      show ?thesis
      proof (cases "replaces bi x e")
        case True
        have step: "dedupe_step bi m x = Map_set ?n x m"
          using \<open>truthy ?n\<close> Some True by (simp add: dedupe_step_def)
        have keys: "map fst (Map_set ?n x m) = map fst m" using present by (simp add: map_fst_Map_set)
        have sets: "set (Map_set ?n x m) = insert (?n, x) {p \<in> set m. fst p \<noteq> ?n}"
          by (rule set_Map_set[OF dist])
        have lt: "capture_instant bi e < capture_instant bi x" using True rep by simp
        have new: "keeps_latest bi (xs @ [x]) x"
        proof (rule keeps_latest_snoc_new, intro allI impI)
          fix j assume j: "j < length xs" "cell (xs ! j) ''name'' = ?n"
          from ekeeps obtain i where "\<forall>j<length xs. cell (xs ! j) ''name'' = cell e ''name''
              \<longrightarrow> capture_instant bi (xs ! j) \<le> capture_instant bi e
                  \<and> (j < i \<longrightarrow> capture_instant bi (xs ! j) < capture_instant bi e)"
            unfolding keeps_latest_def by blast
          then have "capture_instant bi (xs ! j) \<le> capture_instant bi e" using j ename by simp
          then show "capture_instant bi (xs ! j) < capture_instant bi x" using lt by simp
        qed
        have "\<forall>(n, r)\<in>set (Map_set ?n x m). cell r ''name'' = n \<and> keeps_latest bi (xs @ [x]) r"
        proof (clarify, intro conjI)
          fix n r assume "(n, r) \<in> set (Map_set ?n x m)"
          then consider "n = ?n" "r = x" | "(n, r) \<in> set m" using sets by auto
          then show "cell r ''name'' = n" using inv_names(2)[OF I] by cases auto
        next
          fix n r assume "(n, r) \<in> set (Map_set ?n x m)"
          then consider "n = ?n" "r = x" | "(n, r) \<in> set m" "n \<noteq> ?n" using sets by auto
          then show "keeps_latest bi (xs @ [x]) r"
          proof cases
            case 1
            then show ?thesis using new by simp
          next
            case 2
            then show ?thesis using other by blast
          qed
        qed
        then show ?thesis unfolding step dedupe_inv_def keys using dist nset' by blast
      next
        case False
        have step: "dedupe_step bi m x = m"
          using \<open>truthy ?n\<close> Some False by (simp add: dedupe_step_def)
        have nlt: "\<not> capture_instant bi e < capture_instant bi x" using False rep by simp
        have "\<forall>(n, r)\<in>set m. cell r ''name'' = n \<and> keeps_latest bi (xs @ [x]) r"
        proof (clarify, intro conjI)
          fix n r assume nr: "(n, r) \<in> set m"
          show "cell r ''name'' = n" using inv_names(2)[OF I nr] .
          show "keeps_latest bi (xs @ [x]) r"
          proof (cases "n = ?n")
            case True
            then have "r = e" using nr e dist by (metis Some map_of_is_SomeI option.inject)
            then show ?thesis using keeps_latest_snoc_kept[OF ekeeps nlt] by simp
          next
            case False
            then show ?thesis using other nr by blast
          qed
        qed
        then show ?thesis unfolding step dedupe_inv_def using dist nset' by blast
      qed
    qed
  qed
qed

lemma inv_foldl:
  assumes "\<forall>r\<in>set xs. truthy (cell r ''folder_date'')
                  \<longrightarrow> Date_value bi (cell r ''folder_date'') \<noteq> None"
  shows "dedupe_inv bi xs (foldl (dedupe_step bi) [] xs)"
  using assms
proof (induction xs rule: rev_induct)
  case Nil
  then show ?case by (simp add: dedupe_inv_def)
next
  case (snoc x xs)
  then have "dedupe_inv bi xs (foldl (dedupe_step bi) [] xs)" by simp
  from inv_step[OF this snoc.prems] show ?case by simp
qed

lemma names_of_entries:
  "\<forall>(n, r)\<in>set m. cell r ''name'' = n \<Longrightarrow> map (\<lambda>r. cell r ''name'') (map snd m) = map fst m"
  by (induction m) auto

text \<open>
  C7. Of the rows of a bucket whose folder\_dates, where present, are time values, the
  deduplication keeps one row for each name that is not null or empty: the first row of
  the greatest capture instant among the rows of that name (so the earlier row on a tie
  or when no row has an instant). Rows with a null or empty name are dropped. The rows
  A at 10, A at 20, B at 5 give A at 20, B at 5.
\<close>

theorem dedupe_keeps_latest:
  assumes valid: "\<forall>r\<in>set rs. truthy (cell r ''folder_date'')
                    \<longrightarrow> Date_value bi (cell r ''folder_date'') \<noteq> None"
  shows "distinct (map (\<lambda>r. cell r ''name'') (deduplicatedRows bi rs))
       \<and> set (map (\<lambda>r. cell r ''name'') (deduplicatedRows bi rs))
           = {n \<in> (\<lambda>r. cell r ''name'') ` set rs. truthy n}
       \<and> (\<forall>r\<in>set (deduplicatedRows bi rs). keeps_latest bi rs r)
       \<and> (\<forall>r\<in>set (deduplicatedRows bi rs). cell r ''name'' \<noteq> SNull \<and> cell r ''name'' \<noteq> SText [])
       \<and> deduplicatedRows bi
            [[(''name'', SText ''A''), (''folder_date'', SInt 10)],
             [(''name'', SText ''A''), (''folder_date'', SInt 20)],
             [(''name'', SText ''B''), (''folder_date'', SInt 5)]]
           = [[(''name'', SText ''A''), (''folder_date'', SInt 20)],
              [(''name'', SText ''B''), (''folder_date'', SInt 5)]]"
proof -
  let ?m = "foldl (dedupe_step bi) [] rs"
  have I: "dedupe_inv bi rs ?m" by (rule inv_foldl[OF valid])
  then have ent: "\<forall>(n, r)\<in>set ?m. cell r ''name'' = n" by (auto simp: dedupe_inv_def)
  have nm: "map (\<lambda>r. cell r ''name'') (deduplicatedRows bi rs) = map fst ?m"
    unfolding deduplicatedRows_def by (rule names_of_entries[OF ent])
  have a: "distinct (map (\<lambda>r. cell r ''name'') (deduplicatedRows bi rs))"
    using I by (simp add: nm dedupe_inv_def)
  have b: "set (map (\<lambda>r. cell r ''name'') (deduplicatedRows bi rs))
           = {n \<in> (\<lambda>r. cell r ''name'') ` set rs. truthy n}"
    using I unfolding nm by (simp add: dedupe_inv_def)
  have c: "\<forall>r\<in>set (deduplicatedRows bi rs). keeps_latest bi rs r"
    using I by (auto simp: deduplicatedRows_def dedupe_inv_def)
  have d: "\<forall>r\<in>set (deduplicatedRows bi rs). cell r ''name'' \<noteq> SNull \<and> cell r ''name'' \<noteq> SText []"
  proof
    fix r assume "r \<in> set (deduplicatedRows bi rs)"
    then have "cell r ''name'' \<in> set (map (\<lambda>r. cell r ''name'') (deduplicatedRows bi rs))" by simp
    then have "truthy (cell r ''name'')" unfolding b by simp
    then show "cell r ''name'' \<noteq> SNull \<and> cell r ''name'' \<noteq> SText []" by auto
  qed
  have e: "deduplicatedRows bi
            [[(''name'', SText ''A''), (''folder_date'', SInt 10)],
             [(''name'', SText ''A''), (''folder_date'', SInt 20)],
             [(''name'', SText ''B''), (''folder_date'', SInt 5)]]
           = [[(''name'', SText ''A''), (''folder_date'', SInt 20)],
              [(''name'', SText ''B''), (''folder_date'', SInt 5)]]"
    by (simp add: deduplicatedRows_def dedupe_step_def cell_def replaces_def Let_def)
  from a b c d e show ?thesis by blast
qed

lemma utc_Date_parse: "Date_parse utc s = map_option (\<lambda>t. 1000 * t) (utc_seconds s)"
  by (simp add: utc_def)

lemmas clock = utc_seconds_def is_digit_def dec_value_def days_in_month_def leap_year_def
  days_from_civil_def Let_def

text \<open>Six rows of one hour: two names, a tie, a null and an empty name.\<close>

theorem dedupe_keeps_latest_witness:
  "deduplicatedRows utc same_hour_rows
     = [[(''name'', SText ''A''), (''folder_date'', SText ''2024-11-26 17:20:00'')],
        [(''name'', SText ''B''), (''folder_date'', SText ''2024-11-26 17:20:00'')]]
   \<and> keeps_latest utc same_hour_rows
        [(''name'', SText ''A''), (''folder_date'', SText ''2024-11-26 17:20:00'')]
   \<and> keeps_latest utc same_hour_rows
        [(''name'', SText ''B''), (''folder_date'', SText ''2024-11-26 17:20:00'')]"
proof -
  have v: "\<forall>r\<in>set same_hour_rows. truthy (cell r ''folder_date'')
             \<longrightarrow> Date_value utc (cell r ''folder_date'') \<noteq> None"
    by (simp add: same_hour_rows_def cell_def utc_Date_parse clock)
  have out: "deduplicatedRows utc same_hour_rows
     = [[(''name'', SText ''A''), (''folder_date'', SText ''2024-11-26 17:20:00'')],
        [(''name'', SText ''B''), (''folder_date'', SText ''2024-11-26 17:20:00'')]]"
    by (simp add: same_hour_rows_def deduplicatedRows_def dedupe_step_def cell_def replaces_def
        utc_Date_parse clock)
  show ?thesis using dedupe_keeps_latest[OF v] out by simp
qed

section \<open>Properties: the chart\<close>

lemma tableNames_cases:
  "t \<in> set tableNames \<Longrightarrow> t = ''XBLTotal'' \<or> t = ''XBLTotal1'' \<or> t = ''XBLTotal2'' \<or> t = ''XBLTotal3''"
  by (simp add: tableNames_def)

lemma tableNames_word: "t \<in> set tableNames \<Longrightarrow> t \<noteq> [] \<and> list_all word_char t"
  by (auto simp: tableNames_def word_char_def)

lemma columnExists_known:
  "t \<in> set tableNames \<Longrightarrow> map_of db t = Some T \<Longrightarrow> fst (columnExists db t c) = (c \<in> set (columns T))"
  using tableNames_word[of t] by (simp add: columnExists_def)

lemma physical_names:
  "t \<in> set tableNames \<Longrightarrow>
   getColumnName t ''name'' = (if generic_table t then ''field4'' else ''name'')
   \<and> getColumnName t ''sync_id'' = (if generic_table t then ''field13'' else ''sync_id'')
   \<and> getColumnName t ''folder_date'' = (if generic_table t then ''field11'' else ''folder_date'')
   \<and> getColumnName t ''kudos'' = (if generic_table t then ''field10'' else ''kudos'')"
  by (simp add: getColumnName_def fieldMapping_def)

lemma check_table_known:
  assumes "t \<in> set tableNames" and "map_of db t = Some T"
  shows "check_table db t =
     \<lparr>exists = True,
      hasName = (getColumnName t ''name'' \<in> set (columns T)),
      hasSyncId = (getColumnName t ''sync_id'' \<in> set (columns T)),
      hasFolderDate = (getColumnName t ''folder_date'' \<in> set (columns T)),
      hasKudos = (getColumnName t ''kudos'' \<in> set (columns T))\<rparr>"
  using assms physical_names[OF assms(1)]
  by (simp add: check_table_def tableExists_def columnExists_known)

lemma check_table_missing:
  "map_of db t = None \<Longrightarrow> exists (check_table db t) = False"
  by (simp add: check_table_def tableExists_def)

lemma top10_tables_filter:
  "top10_tables db =
     filter (\<lambda>t. exists (check_table db t) \<and> hasName (check_table db t)
                \<and> hasSyncId (check_table db t) \<and> hasKudos (check_table db t)) tableNames"
  by (simp add: top10_tables_def tableChecks_def filter_map comp_def)

lemma data_tables_filter:
  "data_tables db =
     filter (\<lambda>t. exists (check_table db t) \<and> hasName (check_table db t)
                \<and> hasFolderDate (check_table db t) \<and> hasKudos (check_table db t)) tableNames"
  by (simp add: data_tables_def tableChecks_def filter_map comp_def)

lemma sync_less_table_lists:
  assumes t: "tableName \<in> set tableNames" and T: "map_of db tableName = Some T"
    and cols: "getColumnName tableName ''name'' \<in> set (columns T)"
      "getColumnName tableName ''folder_date'' \<in> set (columns T)"
      "getColumnName tableName ''kudos'' \<in> set (columns T)"
    and nosync: "getColumnName tableName ''sync_id'' \<notin> set (columns T)"
  shows "tableName \<in> set (data_tables db) \<and> tableName \<notin> set (top10_tables db)
       \<and> dataPart db top10Users tableName =
           Inr (map (\<lambda>r. (cell r (getColumnName tableName ''folder_date''),
                          cell r (getColumnName tableName ''name''),
                          cell r (getColumnName tableName ''kudos'')))
                  (filter (\<lambda>r. cell r (getColumnName tableName ''folder_date'') \<noteq> SNull
                              \<and> cell r (getColumnName tableName ''name'') \<noteq> SNull
                              \<and> cell r (getColumnName tableName ''name'') \<noteq> SText []
                              \<and> list_ex (sql_eq (cell r (getColumnName tableName ''name''))) top10Users)
                     (rows T)))"
proof -
  have a: "tableName \<in> set (data_tables db)"
    using t cols by (simp add: data_tables_filter check_table_known[OF t T])
  have b: "tableName \<notin> set (top10_tables db)"
    using nosync by (simp add: top10_tables_filter check_table_known[OF t T])
  have c: "from_table db tableName [getColumnName tableName ''folder_date'',
      getColumnName tableName ''name'', getColumnName tableName ''kudos''] = Inr (rows T)"
    using T cols by (simp add: from_table_def)
  show ?thesis using a b by (simp add: dataPart_def c Let_def)
qed

lemma sql_max_fold:
  "\<not> sql_less (foldl (\<lambda>m v. if sql_less m v then v else m) m0 vs) m0
   \<and> (\<forall>v\<in>set vs. \<not> sql_less (foldl (\<lambda>m v. if sql_less m v then v else m) m0 vs) v)
   \<and> (foldl (\<lambda>m v. if sql_less m v then v else m) m0 vs = m0
       \<or> foldl (\<lambda>m v. if sql_less m v then v else m) m0 vs \<in> set vs)"
proof (induction vs arbitrary: m0)
  case Nil
  then show ?case using sql_less_asym by auto
next
  case (Cons v vs)
  let ?f = "\<lambda>m v. if sql_less m v then v else m"
  show ?case
  proof (cases "sql_less m0 v")
    case True
    have s: "foldl ?f m0 (v # vs) = foldl ?f v vs" using True by simp
    from Cons[of v] have 1: "\<not> sql_less (foldl ?f v vs) v"
      and 2: "\<forall>w\<in>set vs. \<not> sql_less (foldl ?f v vs) w"
      and 3: "foldl ?f v vs = v \<or> foldl ?f v vs \<in> set vs" by blast+
    have "\<not> sql_less v m0" using True sql_less_asym by blast
    with 1 have "\<not> sql_less (foldl ?f v vs) m0" using sql_less_negtrans by blast
    then show ?thesis unfolding s using 1 2 3 by auto
  next
    case False
    have s: "foldl ?f m0 (v # vs) = foldl ?f m0 vs" using False by simp
    from Cons[of m0] have 1: "\<not> sql_less (foldl ?f m0 vs) m0"
      and 2: "\<forall>w\<in>set vs. \<not> sql_less (foldl ?f m0 vs) w"
      and 3: "foldl ?f m0 vs = m0 \<or> foldl ?f m0 vs \<in> set vs" by blast+
    have "\<not> sql_less (foldl ?f m0 vs) v" using 1 False sql_less_negtrans by blast
    then show ?thesis unfolding s using 1 2 3 by auto
  qed
qed

lemma sql_max_greatest: "v \<in> set vs \<Longrightarrow> \<not> sql_less (sql_max vs) v"
  using sql_max_fold[of SNull vs] by (simp add: sql_max_def)

lemma sql_max_member: "sql_max vs = SNull \<or> sql_max vs \<in> set vs"
  using sql_max_fold[of SNull vs] by (simp add: sql_max_def)

lemma distinct_map_insert_by:
  "distinct (map f (insert_by lt x xs)) = (f x \<notin> f ` set xs \<and> distinct (map f xs))"
  by (induction xs) (auto simp: set_insert_by)

lemma distinct_map_order_by: "distinct (map f (order_by lt xs)) = distinct (map f xs)"
  by (induction xs) (auto simp: order_by_Cons order_by_Nil distinct_map_insert_by set_order_by)

lemma map_fst_group_max:
  "map fst (group_max prs) = order_by (\<lambda>a b. sql_less b a) (remdups (map fst prs))"
  by (simp add: group_max_def comp_def)

lemma distinct_group_max: "distinct (map fst (group_max prs))"
  using distinct_map_order_by[of "\<lambda>x. x" "\<lambda>a b. sql_less b a" "remdups (map fst prs)"]
  by (simp add: map_fst_group_max)

lemma top10Query_props:
  "length (top10Query prs) \<le> 10 \<and> distinct (map fst (top10Query prs))
   \<and> (\<forall>(n, k)\<in>set (top10Query prs).
         n \<in> fst ` set prs \<and> k = sql_max (map snd (filter (\<lambda>p. fst p = n) prs)))"
proof -
  have a: "length (top10Query prs) \<le> 10" by (simp add: top10Query_def)
  have "distinct (map fst (order_by (\<lambda>a b. sql_less (snd b) (snd a)) (group_max prs)))"
    by (simp add: distinct_map_order_by distinct_group_max)
  then have b: "distinct (map fst (top10Query prs))"
    by (simp add: top10Query_def take_map[symmetric] distinct_take)
  have "set (top10Query prs) \<subseteq> set (group_max prs)"
    using set_take_subset[of 10 "order_by (\<lambda>a b. sql_less (snd b) (snd a)) (group_max prs)"]
    by (simp add: top10Query_def set_order_by)
  moreover have "\<forall>(n, k)\<in>set (group_max prs).
         n \<in> fst ` set prs \<and> k = sql_max (map snd (filter (\<lambda>p. fst p = n) prs))"
    by (auto simp: group_max_def set_order_by)
  ultimately have c: "\<forall>(n, k)\<in>set (top10Query prs).
         n \<in> fst ` set prs \<and> k = sql_max (map snd (filter (\<lambda>p. fst p = n) prs))" by blast
  from a b c show ?thesis by blast
qed

lemma top10Part_total:
  assumes "t \<in> set (top10_tables db)"
  shows "\<exists>prs. top10Part db p t = Inr prs"
proof -
  from assms have t: "t \<in> set tableNames" and c: "exists (check_table db t)" "hasName (check_table db t)"
    "hasSyncId (check_table db t)" "hasKudos (check_table db t)"
    by (simp_all add: top10_tables_filter)
  from c(1) obtain T where T: "map_of db t = Some T"
    using check_table_missing[of db t] by (cases "map_of db t") auto
  have "list_all (\<lambda>c. c \<in> set (columns T)) [getColumnName t ''name'', getColumnName t ''kudos'', getColumnName t ''sync_id'']"
    using c by (simp add: check_table_known[OF t T])
  then show ?thesis by (simp add: top10Part_def from_table_def T Let_def)
qed

lemma union_all_total:
  "\<forall>p\<in>set ps. \<exists>xs. p = Inr xs \<Longrightarrow> \<exists>ys. union_all ps = Inr ys"
proof (induction ps)
  case Nil
  then show ?case by simp
next
  case (Cons p ps)
  then obtain xs ys where "p = Inr xs" "union_all ps = Inr ys" by auto
  then show ?case by simp
qed

text \<open>
  C3. On every database the top 10 query, when it runs, returns at most 10 rows with
  pairwise distinct names, and the value of a name is the greatest kudos among the rows
  of that name in the union of the contributing tables under the latest sync: 50 and 70
  give 70. It does not run when Sync cannot be read or no table qualifies.
\<close>

theorem top10_selection:
  "(case top10Rows db of
      Inl e \<Rightarrow> getLatestSyncId db = Inl e
    | Inr None \<Rightarrow> top10_tables db = []
    | Inr (Some top10) \<Rightarrow>
        length top10 \<le> 10 \<and> distinct (map fst top10)
        \<and> (\<exists>latestSyncId prs.
              getLatestSyncId db = Inr latestSyncId
              \<and> union_all (map (top10Part db (if truthy latestSyncId then latestSyncId else SText []))
                             (top10_tables db)) = Inr prs
              \<and> (\<forall>(n, k)\<in>set top10.
                    n \<in> fst ` set prs
                    \<and> k = sql_max (map snd (filter (\<lambda>p. fst p = n) prs))
                    \<and> (\<forall>v\<in>set (map snd (filter (\<lambda>p. fst p = n) prs)). \<not> sql_less k v)
                    \<and> (k = SNull \<or> k \<in> set (map snd (filter (\<lambda>p. fst p = n) prs))))))
   \<and> sql_max [SInt 50, SInt 70] = SInt 70"
proof -
  have ex: "sql_max [SInt 50, SInt 70] = SInt 70" by (simp add: sql_max_def)
  have main: "case top10Rows db of
      Inl e \<Rightarrow> getLatestSyncId db = Inl e
    | Inr None \<Rightarrow> top10_tables db = []
    | Inr (Some top10) \<Rightarrow>
        length top10 \<le> 10 \<and> distinct (map fst top10)
        \<and> (\<exists>latestSyncId prs.
              getLatestSyncId db = Inr latestSyncId
              \<and> union_all (map (top10Part db (if truthy latestSyncId then latestSyncId else SText []))
                             (top10_tables db)) = Inr prs
              \<and> (\<forall>(n, k)\<in>set top10.
                    n \<in> fst ` set prs
                    \<and> k = sql_max (map snd (filter (\<lambda>p. fst p = n) prs))
                    \<and> (\<forall>v\<in>set (map snd (filter (\<lambda>p. fst p = n) prs)). \<not> sql_less k v)
                    \<and> (k = SNull \<or> k \<in> set (map snd (filter (\<lambda>p. fst p = n) prs)))))"
  proof (cases "getLatestSyncId db")
    case (Inl e)
    then show ?thesis by (simp add: top10Rows_def)
  next
    case (Inr latestSyncId)
    let ?p = "if truthy latestSyncId then latestSyncId else SText []"
    show ?thesis
    proof (cases "top10_tables db = []")
      case True
      then show ?thesis by (simp add: top10Rows_def Inr)
    next
      case False
      have "\<forall>p\<in>set (map (top10Part db ?p) (top10_tables db)). \<exists>xs. p = Inr xs"
        using top10Part_total[of _ db ?p] by auto
      from union_all_total[OF this] obtain prs where
        u: "union_all (map (top10Part db ?p) (top10_tables db)) = Inr prs" by blast
      have r: "top10Rows db = Inr (Some (top10Query prs))"
        using False u by (simp add: top10Rows_def Inr)
      have "\<forall>(n, k)\<in>set (top10Query prs).
                    n \<in> fst ` set prs
                    \<and> k = sql_max (map snd (filter (\<lambda>p. fst p = n) prs))
                    \<and> (\<forall>v\<in>set (map snd (filter (\<lambda>p. fst p = n) prs)). \<not> sql_less k v)
                    \<and> (k = SNull \<or> k \<in> set (map snd (filter (\<lambda>p. fst p = n) prs)))"
        using top10Query_props[of prs] sql_max_greatest sql_max_member by fast
      then show ?thesis using top10Query_props[of prs] Inr u by (simp add: r)
    qed
  qed
  from main ex show ?thesis by blast
qed

lemmas chart_run = top10Rows_def getLatestSyncId_def top10_tables_def data_tables_def
  tableChecks_def tableNames_def check_table_def tableExists_def columnExists_def word_char_def
  generic_table_def getColumnName_def fieldMapping_def top10Part_def dataPart_def
  top10Query_def group_max_def sql_max_def order_by_def make_table_def capture_def
  xbltotal_columns_def generic_columns_def from_table_def cell_def sql_eq_def Let_def

text \<open>A with 50 in XBLTotal and 70 in XBLTotal1 under the latest sync, B with 60.\<close>

theorem top10_selection_witness:
  "top10Rows two_table_store = Inr (Some [(SText ''A'', SInt 70), (SText ''B'', SInt 60)])
   \<and> length [(SText ''A'', SInt 70), (SText ''B'', SInt 60)] \<le> (10::nat)
   \<and> distinct (map fst [(SText ''A'', SInt 70), (SText ''B'', SInt 60)])
   \<and> sql_max [SInt 50, SInt 70] = SInt 70"
proof -
  have r: "top10Rows two_table_store = Inr (Some [(SText ''A'', SInt 70), (SText ''B'', SInt 60)])"
    by (simp add: two_table_store_def chart_run)
  show ?thesis using top10_selection[of two_table_store] by (simp add: r)
qed

text \<open>
  C4. The claim is one point for an entity and a day, of the latest capture. The join
  keeps every row whose folder\_date is the day's greatest, so captures that share it
  all become points. Here A is captured at 08:00:00 and, in XBLTotal and in XBLTotal1
  alike, at 09:00:00 of 2024-11-27: the series of A has two points for that day.
\<close>

theorem tied_captures_two_points:
  "\<exists>chartData. xbltotal_chart utc tied_store = Inr chartData
     \<and> chartData ''A'' = Some [(SText ''2024-11-27'', SInt 120), (SText ''2024-11-27'', SInt 120)]"
  by (simp add: tied_store_def xbltotal_chart_def chart_run history_rows_def daily_max_def
      date_of_def trim_name_def sql_trim_def utc_def utc_seconds_def is_digit_def dec_value_def
      days_in_month_def leap_year_def days_from_civil_def chartData_of_def add_point_def
      js_trim_def js_space_def prototype_keys_def)



















end
